theory Spec2Isabelle
  imports Complex_Main "HOL-Library.Monad_Syntax"
begin

section \<open>The SVG-to-globe path converter (Tools/svg\_to\_globe.py)\<close>

text \<open>
  The development embeds the core of \<^verbatim>\<open>svg_to_globe.py\<close>: the tokenizer
  \<^verbatim>\<open>parse_path_commands\<close>, the coordinate transform \<^verbatim>\<open>svg_to_geographic\<close> /
  \<^verbatim>\<open>point_to_coord\<close> and the segment builder \<^verbatim>\<open>extract_path_segments\<close>.

  Conventions of the embedding.
  \<^item> A Python \<^verbatim>\<open>float\<close> is a \<^typ>\<open>real\<close> and \<^verbatim>\<open>+ - * /\<close>, \<^verbatim>\<open>**2\<close>,
    \<^verbatim>\<open>math.sqrt\<close>, \<^verbatim>\<open>min\<close>, \<^verbatim>\<open>max\<close> are the exact operations; \<^verbatim>\<open>round(v, 4)\<close> is
    rounding to the nearest multiple of \<open>1/10000\<close>, ties to the even multiple. Binary rounding
    error, infinities, NaN and the \<^verbatim>\<open>OverflowError\<close> of \<^verbatim>\<open>**\<close> on huge operands are outside
    the embedding.
  \<^item> A path string is a list of 8-bit characters: \<^verbatim>\<open>\d\<close> is an ASCII digit and
    \<^verbatim>\<open>str.strip()\<close> removes ASCII white space; \<^verbatim>\<open>float(n)\<close> of a matched token is its
    exact decimal value.
  \<^item> A point \<^verbatim>\<open>[lat, lon]\<close> is a pair, \<^verbatim>\<open>p[0]\<close> is \<^term>\<open>fst\<close> and \<^verbatim>\<open>p[1]\<close> is \<^term>\<open>snd\<close>;
    a cubic \<^verbatim>\<open>[p0, p1, p2, p3]\<close> is a quadruple. The code never updates a point or a
    cubic in place, so the sharing of these lists between fields is not observable.
  \<^item> Reading \<^verbatim>\<open>coords[i]\<close> can raise \<^verbatim>\<open>IndexError\<close>; the builder therefore returns an
    \<open>option\<close>, where \<^term>\<open>None\<close> stands for the raised exception.
  \<^item> \<^verbatim>\<open>for i in range(a, b, s)\<close> is a fold over the list \<open>py_range a b s\<close>.
  \<^item> The \<^verbatim>\<open>id\<close> of an emitted path comes from \<^verbatim>\<open>uuid4()\<close> and is not part of the model;
    the constant \<^verbatim>\<open>style\<close> is kept as its stroke width.
\<close>

subsection \<open>Constants\<close>

definition SVG_WIDTH :: real where "SVG_WIDTH = 4170"
definition SVG_HEIGHT :: real where "SVG_HEIGHT = 1668"
definition LON_RANGE :: real where "LON_RANGE = 180"
definition LAT_RANGE :: real where "LAT_RANGE = 72"

subsection \<open>The tokenizer: \<^verbatim>\<open>parse_path_commands\<close>\<close>

definition is_cmd :: "char \<Rightarrow> bool" where
  "is_cmd c = (c \<in> set ''MCmcLlHhVvZzSsQqTtAa'')"

definition is_digit :: "char \<Rightarrow> bool" where
  "is_digit c = (c \<in> set ''0123456789'')"

definition is_space :: "char \<Rightarrow> bool" where
  \<comment> \<open>the ASCII characters that \<^verbatim>\<open>str.strip()\<close> removes\<close>
  "is_space c = (c \<in> {CHR 0x09, CHR 0x0A, CHR 0x0B, CHR 0x0C, CHR 0x0D,
                        CHR 0x1C, CHR 0x1D, CHR 0x1E, CHR 0x1F, CHR '' ''})"

definition strip :: "string \<Rightarrow> string" where
  "strip s = rev (dropWhile is_space (rev (dropWhile is_space s)))"

text \<open>
  \<^verbatim>\<open>re.finditer(r'([MCmcLlHhVvZzSsQqTtAa])([^MCmcLlHhVvZzSsQqTtAa]*)', d)\<close>: every command
  letter of the string starts a match, whose second group is the longest run of other
  characters after it; characters before the first command letter belong to no match.
\<close>

fun command_matches :: "string \<Rightarrow> (char \<times> string) list" where
  "command_matches [] = []"
| "command_matches (c # cs) =
     (if is_cmd c then (c, takeWhile (\<lambda>x. \<not> is_cmd x) cs) # command_matches cs
      else command_matches cs)"

text \<open>
  One match of \<^verbatim>\<open>\d+\.?\d*\<close> at the head of a string that starts with a digit: the token
  and the rest of the string.
\<close>

definition match_unsigned :: "string \<Rightarrow> string \<times> string" where
  "match_unsigned s =
     (let ds = takeWhile is_digit s; r = dropWhile is_digit s
      in case r of
           [] \<Rightarrow> (ds, r)
         | c # r' \<Rightarrow> if c = CHR ''.''
                     then (ds @ [c] @ takeWhile is_digit r', dropWhile is_digit r')
                     else (ds, r))"

lemma snd_match_unsigned:
  "snd (match_unsigned s) =
     (case dropWhile is_digit s of
        [] \<Rightarrow> []
      | c # r' \<Rightarrow> if c = CHR ''.'' then dropWhile is_digit r' else c # r')"
proof (cases "dropWhile is_digit s")
  case Nil
  show ?thesis unfolding match_unsigned_def Let_def Nil by simp
next
  case (Cons c r')
  show ?thesis unfolding match_unsigned_def Let_def Cons by simp
qed

lemma match_unsigned_length: "length (snd (match_unsigned s)) \<le> length s"
proof (cases "dropWhile is_digit s")
  case Nil
  show ?thesis unfolding snd_match_unsigned Nil by simp
next
  case (Cons c r')
  have "length (dropWhile is_digit s) \<le> length s"
    by (rule length_dropWhile_le)
  then have a: "Suc (length r') \<le> length s"
    unfolding Cons by simp
  have b: "length (dropWhile is_digit r') \<le> length r'"
    by (rule length_dropWhile_le)
  show ?thesis unfolding snd_match_unsigned Cons using a b by simp
qed

lemma match_unsigned_digit:
  "is_digit c \<Longrightarrow> snd (match_unsigned (c # cs)) = snd (match_unsigned cs)"
  unfolding snd_match_unsigned by simp

text \<open>\<^verbatim>\<open>re.findall(r'-?\d+\.?\d*', s)\<close>: the matches from left to right, without overlap.\<close>

function find_numbers :: "string \<Rightarrow> string list" where
  "find_numbers [] = []"
| "find_numbers (c # cs) =
     (if c = CHR ''-'' \<and> cs \<noteq> [] \<and> is_digit (hd cs)
      then (c # fst (match_unsigned cs)) # find_numbers (snd (match_unsigned cs))
      else if is_digit c
      then fst (match_unsigned (c # cs)) # find_numbers (snd (match_unsigned (c # cs)))
      else find_numbers cs)"
  by pat_completeness auto
termination
proof (relation "measure length", goal_cases)
  case 1
  show ?case by simp
next
  case (2 c cs)
  have "length (snd (match_unsigned cs)) \<le> length cs" by (rule match_unsigned_length)
  then show ?case by simp
next
  case (3 c cs)
  then have d: "is_digit c" by simp
  have "length (snd (match_unsigned cs)) \<le> length cs" by (rule match_unsigned_length)
  with d show ?case by (simp add: match_unsigned_digit)
next
  case (4 c cs)
  show ?case by simp
qed

text \<open>\<^verbatim>\<open>float(n)\<close> on a token of the shape \<^verbatim>\<open>-?\d+\.?\d*\<close>, as an exact decimal.\<close>

definition digit_val :: "char \<Rightarrow> nat" where
  "digit_val c = of_char c - 48"

definition digits_val :: "string \<Rightarrow> nat" where
  "digits_val ds = foldl (\<lambda>a c. 10 * a + digit_val c) 0 ds"

definition unsigned_float :: "string \<Rightarrow> real" where
  "unsigned_float s =
     (let ip = takeWhile is_digit s; fp = drop 1 (dropWhile is_digit s)
      in real (digits_val ip) + real (digits_val fp) / 10 ^ length fp)"

definition to_float :: "string \<Rightarrow> real" where
  "to_float s = (case s of
                   [] \<Rightarrow> 0
                 | c # cs \<Rightarrow> if c = CHR ''-'' then - unsigned_float cs else unsigned_float s)"

definition parse_path_commands :: "string \<Rightarrow> (char \<times> real list) list" where
  "parse_path_commands d =
     map (\<lambda>(cmd, g2).
            let coords_str = strip g2
            in (cmd, if coords_str \<noteq> [] then map to_float (find_numbers coords_str) else []))
         (command_matches d)"

subsection \<open>The coordinate transform\<close>

definition round_half_even :: "real \<Rightarrow> int" where
  "round_half_even v =
     (let f = \<lfloor>v\<rfloor>; d = v - of_int f
      in if d < 1 / 2 then f else if 1 / 2 < d then f + 1 else if even f then f else f + 1)"

definition round4 :: "real \<Rightarrow> real" where
  \<comment> \<open>\<^verbatim>\<open>round(v, 4)\<close>\<close>
  "round4 v = of_int (round_half_even (v * 10000)) / 10000"

type_synonym coord = "real \<times> real"

definition svg_to_geographic :: "real \<Rightarrow> real \<Rightarrow> coord" where
  "svg_to_geographic x y =
     (let lon = (x - SVG_WIDTH / 2) * (LON_RANGE / (SVG_WIDTH / 2));
          lat = - (y - SVG_HEIGHT / 2) * (LAT_RANGE / (SVG_HEIGHT / 2));
          lat = max (- LAT_RANGE) (min LAT_RANGE lat)
      in (round4 lat, round4 lon))"

definition point_to_coord :: "real \<Rightarrow> real \<Rightarrow> real \<Rightarrow> coord" where
  "point_to_coord x y shift = svg_to_geographic (x + shift) y"

subsection \<open>Path segments and the builder's state\<close>

type_synonym cubic = "coord \<times> coord \<times> coord \<times> coord"

record PathSegment =
  cubic_segments :: "cubic list"
  is_closed :: bool
  start_point :: "coord option"
  current_point :: "coord option"

definition new_PathSegment :: PathSegment where
  \<comment> \<open>\<^verbatim>\<open>PathSegment()\<close>\<close>
  "new_PathSegment =
     \<lparr>cubic_segments = [], is_closed = False, start_point = None, current_point = None\<rparr>"

text \<open>The local variables of \<^verbatim>\<open>extract_path_segments\<close> that the loop over the commands updates.\<close>

record builder =
  segments :: "PathSegment list"
  current_segment :: "PathSegment option"
  current_pos :: "real \<times> real"

definition initial :: builder where
  "initial = \<lparr>segments = [], current_segment = None, current_pos = (0, 0)\<rparr>"

subsection \<open>Indexing, ranges and loops\<close>

definition coord_at :: "real list \<Rightarrow> int \<Rightarrow> real option" where
  \<comment> \<open>\<^verbatim>\<open>coords[i]\<close>: a negative index counts from the end, an index out of range raises\<close>
  "coord_at coords i =
     (if 0 \<le> i \<and> i < int (length coords) then Some (coords ! nat i)
      else if - int (length coords) \<le> i \<and> i < 0 then Some (coords ! nat (int (length coords) + i))
      else None)"

text \<open>
  \<^verbatim>\<open>range(start, stop, step)\<close> for the positive steps the program uses (2 and 6); the list is
  empty for any other step.
\<close>

function py_range :: "int \<Rightarrow> int \<Rightarrow> int \<Rightarrow> int list" where
  "py_range i stop step =
     (if 0 < step \<and> i < stop then i # py_range (i + step) stop step else [])"
  by pat_completeness auto
termination
  by (relation "measure (\<lambda>(i, stop, step). nat (stop - i))") auto

fun for_each :: "('a \<Rightarrow> 's \<Rightarrow> 's option) \<Rightarrow> 'a list \<Rightarrow> 's \<Rightarrow> 's option" where
  "for_each body [] s = Some s"
| "for_each body (x # xs) s =
     (case body x s of None \<Rightarrow> None | Some s' \<Rightarrow> for_each body xs s')"

subsection \<open>The transitions of the segment builder\<close>

text \<open>
  The straight segment as a cubic, written out four times in the source (lines 129-130,
  186-187, 201-202 and 214-215): the control points are the interpolants at 1/3 and 2/3
  between the two transformed end points.
\<close>

definition line_cubic :: "coord \<Rightarrow> coord \<Rightarrow> cubic" where
  "line_cubic p0 p3 =
     (let p1 = (fst p0 + (fst p3 - fst p0) / 3, snd p0 + (snd p3 - snd p0) / 3);
          p2 = (fst p0 + (fst p3 - fst p0) * 2 / 3, snd p0 + (snd p3 - snd p0) * 2 / 3)
      in (p0, p1, p2, p3))"

definition append_cubic :: "cubic \<Rightarrow> coord \<Rightarrow> PathSegment \<Rightarrow> PathSegment" where
  \<comment> \<open>\<^verbatim>\<open>seg.cubic_segments.append(c); seg.current_point = p3\<close>\<close>
  "append_cubic c p3 seg =
     seg\<lparr>cubic_segments := cubic_segments seg @ [c], current_point := Some p3\<rparr>"

definition finalize :: "builder \<Rightarrow> PathSegment list" where
  \<comment> \<open>\<^verbatim>\<open>if current_segment and len(current_segment.cubic_segments) > 0: segments.append(...)\<close>\<close>
  "finalize st =
     (case current_segment st of
        None \<Rightarrow> segments st
      | Some seg \<Rightarrow> if 0 < length (cubic_segments seg) then segments st @ [seg]
                    else segments st)"

definition open_segment :: "real \<Rightarrow> real \<times> real \<Rightarrow> PathSegment" where
  \<comment> \<open>a fresh segment whose start and current point are the transformed cursor\<close>
  "open_segment shift pos =
     (let start = point_to_coord (fst pos) (snd pos) shift
      in new_PathSegment\<lparr>start_point := Some start, current_point := Some start\<rparr>)"

definition ensure_segment :: "real \<Rightarrow> builder \<Rightarrow> PathSegment" where
  \<comment> \<open>\<^verbatim>\<open>if current_segment is None: ...\<close> at the head of the C, c, L and l branches\<close>
  "ensure_segment shift st =
     (case current_segment st of
        None \<Rightarrow> open_segment shift (current_pos st)
      | Some seg \<Rightarrow> seg)"

text \<open>The loop bodies; the loop state is the cursor and the segment under construction.\<close>

definition M_body ::
  "real \<Rightarrow> real list \<Rightarrow> int \<Rightarrow> (real \<times> real) \<times> PathSegment \<Rightarrow> ((real \<times> real) \<times> PathSegment) option"
where
  "M_body shift coords i = (\<lambda>(pos, seg). do {
     let prev_pos = pos;
     x \<leftarrow> coord_at coords i;
     y \<leftarrow> coord_at coords (i + 1);
     let pos = (x, y);
     let p0 = point_to_coord (fst prev_pos) (snd prev_pos) shift;
     let p3 = point_to_coord (fst pos) (snd pos) shift;
     Some (pos, append_cubic (line_cubic p0 p3) p3 seg)
   })"

definition C_body ::
  "real \<Rightarrow> real list \<Rightarrow> int \<Rightarrow> (real \<times> real) \<times> PathSegment \<Rightarrow> ((real \<times> real) \<times> PathSegment) option"
where
  "C_body shift coords i = (\<lambda>(pos, seg). do {
     let p0 = point_to_coord (fst pos) (snd pos) shift;
     x1 \<leftarrow> coord_at coords i;
     y1 \<leftarrow> coord_at coords (i + 1);
     let p1 = point_to_coord x1 y1 shift;
     x2 \<leftarrow> coord_at coords (i + 2);
     y2 \<leftarrow> coord_at coords (i + 3);
     let p2 = point_to_coord x2 y2 shift;
     x3 \<leftarrow> coord_at coords (i + 4);
     y3 \<leftarrow> coord_at coords (i + 5);
     let p3 = point_to_coord x3 y3 shift;
     Some ((x3, y3), append_cubic (p0, p1, p2, p3) p3 seg)
   })"

definition c_body ::
  "real \<Rightarrow> real list \<Rightarrow> int \<Rightarrow> (real \<times> real) \<times> PathSegment \<Rightarrow> ((real \<times> real) \<times> PathSegment) option"
where
  "c_body shift coords i = (\<lambda>(pos, seg). do {
     let p0 = point_to_coord (fst pos) (snd pos) shift;
     x1 \<leftarrow> coord_at coords i;
     y1 \<leftarrow> coord_at coords (i + 1);
     let p1 = point_to_coord (fst pos + x1) (snd pos + y1) shift;
     x2 \<leftarrow> coord_at coords (i + 2);
     y2 \<leftarrow> coord_at coords (i + 3);
     let p2 = point_to_coord (fst pos + x2) (snd pos + y2) shift;
     x3 \<leftarrow> coord_at coords (i + 4);
     y3 \<leftarrow> coord_at coords (i + 5);
     let p3 = point_to_coord (fst pos + x3) (snd pos + y3) shift;
     Some ((fst pos + x3, snd pos + y3), append_cubic (p0, p1, p2, p3) p3 seg)
   })"

definition L_body ::
  "real \<Rightarrow> real list \<Rightarrow> int \<Rightarrow> (real \<times> real) \<times> PathSegment \<Rightarrow> ((real \<times> real) \<times> PathSegment) option"
where
  "L_body shift coords i = (\<lambda>(pos, seg). do {
     let p0 = point_to_coord (fst pos) (snd pos) shift;
     x \<leftarrow> coord_at coords i;
     y \<leftarrow> coord_at coords (i + 1);
     let pos = (x, y);
     let p3 = point_to_coord (fst pos) (snd pos) shift;
     Some (pos, append_cubic (line_cubic p0 p3) p3 seg)
   })"

definition l_body ::
  "real \<Rightarrow> real list \<Rightarrow> int \<Rightarrow> (real \<times> real) \<times> PathSegment \<Rightarrow> ((real \<times> real) \<times> PathSegment) option"
where
  "l_body shift coords i = (\<lambda>(pos, seg). do {
     let p0 = point_to_coord (fst pos) (snd pos) shift;
     x \<leftarrow> coord_at coords i;
     y \<leftarrow> coord_at coords (i + 1);
     let pos = (fst pos + x, snd pos + y);
     let p3 = point_to_coord (fst pos) (snd pos) shift;
     Some (pos, append_cubic (line_cubic p0 p3) p3 seg)
   })"

text \<open>The branches of the \<^verbatim>\<open>if cmd == ...\<close> chain, lines 113-217.\<close>

definition cmd_M :: "real \<Rightarrow> real list \<Rightarrow> builder \<Rightarrow> builder option" where
  "cmd_M shift coords st =
     (if 2 \<le> length coords then do {
        let segs = finalize st;
        x \<leftarrow> coord_at coords 0;
        y \<leftarrow> coord_at coords 1;
        let pos = (x, y);
        let seg = open_segment shift pos;
        (pos, seg) \<leftarrow> for_each (M_body shift coords)
                         (py_range 2 (int (length coords) - 1) 2) (pos, seg);
        Some \<lparr>segments = segs, current_segment = Some seg, current_pos = pos\<rparr>
      } else Some st)"

definition cmd_m :: "real \<Rightarrow> real list \<Rightarrow> builder \<Rightarrow> builder option" where
  "cmd_m shift coords st =
     (if 2 \<le> length coords then do {
        let segs = finalize st;
        x \<leftarrow> coord_at coords 0;
        y \<leftarrow> coord_at coords 1;
        let pos = (fst (current_pos st) + x, snd (current_pos st) + y);
        let seg = open_segment shift pos;
        Some \<lparr>segments = segs, current_segment = Some seg, current_pos = pos\<rparr>
      } else Some st)"

definition draw ::
  "(real \<Rightarrow> real list \<Rightarrow> int \<Rightarrow> (real \<times> real) \<times> PathSegment \<Rightarrow> ((real \<times> real) \<times> PathSegment) option)
     \<Rightarrow> int \<Rightarrow> real \<Rightarrow> real list \<Rightarrow> builder \<Rightarrow> builder option"
where
  \<comment> \<open>the common shape of the C, c, L and l branches: open a segment if there is none, then
      loop over the groups of \<open>n\<close> coordinates\<close>
  "draw body n shift coords st = do {
     let seg = ensure_segment shift st;
     (pos, seg) \<leftarrow> for_each (body shift coords)
                      (py_range 0 (int (length coords) - (n - 1)) n) (current_pos st, seg);
     Some (st\<lparr>current_segment := Some seg, current_pos := pos\<rparr>)
   }"

definition closing_dist :: "coord \<Rightarrow> coord \<Rightarrow> real" where
  \<comment> \<open>\<^verbatim>\<open>math.sqrt((start[0] - end[0])**2 + (start[1] - end[1])**2)\<close>\<close>
  "closing_dist start endp = sqrt ((fst start - fst endp)\<^sup>2 + (snd start - snd endp)\<^sup>2)"

definition cmd_Z :: "builder \<Rightarrow> builder" where
  "cmd_Z st =
     (case current_segment st of
        None \<Rightarrow> st
      | Some seg \<Rightarrow>
          (case start_point seg of
             None \<Rightarrow> st
           | Some start \<Rightarrow>
               (case current_point seg of
                  None \<Rightarrow> st
                | Some endp \<Rightarrow>
                    let dist = closing_dist start endp;
                        seg = (if 0.01 < dist
                               then seg\<lparr>cubic_segments :=
                                          cubic_segments seg @ [line_cubic endp start]\<rparr>
                               else seg)
                    in st\<lparr>current_segment := Some (seg\<lparr>is_closed := True\<rparr>)\<rparr>)))"

definition step :: "real \<Rightarrow> char \<times> real list \<Rightarrow> builder \<Rightarrow> builder option" where
  "step shift = (\<lambda>(cmd, coords) st.
     if cmd = CHR ''M'' then cmd_M shift coords st
     else if cmd = CHR ''m'' then cmd_m shift coords st
     else if cmd = CHR ''C'' then draw C_body 6 shift coords st
     else if cmd = CHR ''c'' then draw c_body 6 shift coords st
     else if cmd = CHR ''L'' then draw L_body 2 shift coords st
     else if cmd = CHR ''l'' then draw l_body 2 shift coords st
     else if cmd = CHR ''Z'' \<or> cmd = CHR ''z'' then Some (cmd_Z st)
     else Some st)"

subsection \<open>The output\<close>

record path_dict =
  pathType :: string
  cubicSegments :: "cubic list"
  isClosed :: bool
  strokeWidth :: real

definition to_dict :: "PathSegment \<Rightarrow> path_dict" where
  "to_dict seg = \<lparr>pathType = ''cubic'', cubicSegments = cubic_segments seg,
                  isClosed = is_closed seg, strokeWidth = 1.5\<rparr>"

definition emit :: "builder \<Rightarrow> path_dict list" where
  \<comment> \<open>lines 219-238: the last segment is kept if it has a curve, then every kept segment
      with a curve becomes a dictionary\<close>
  "emit st = map to_dict (filter (\<lambda>seg. 0 < length (cubic_segments seg)) (finalize st))"

definition build :: "real \<Rightarrow> (char \<times> real list) list \<Rightarrow> builder \<Rightarrow> builder option" where
  \<comment> \<open>the loop \<^verbatim>\<open>for cmd, coords in commands\<close>\<close>
  "build shift cmds st = for_each (step shift) cmds st"

definition extract_path_segments :: "string \<Rightarrow> real \<Rightarrow> path_dict list option" where
  "extract_path_segments path_data shift =
     map_option emit (build shift (parse_path_commands path_data) initial)"

subsection \<open>Notions used in the statements\<close>

definition pair_at :: "real list \<Rightarrow> nat \<Rightarrow> real \<times> real" where
  \<comment> \<open>the \<open>j\<close>-th coordinate pair of an argument list\<close>
  "pair_at coords j = (coords ! (j * 2), coords ! (j * 2 + 1))"

definition output_point :: "real \<Rightarrow> real \<times> real \<Rightarrow> coord" where
  \<comment> \<open>the transform of a raw point\<close>
  "output_point shift p = point_to_coord (fst p) (snd p) shift"

definition draws :: "char \<times> real list \<Rightarrow> bool" where
  \<comment> \<open>the commands that carry at least one complete group of drawing coordinates\<close>
  "draws = (\<lambda>(cmd, coords).
     cmd = CHR ''M'' \<and> 4 \<le> length coords
     \<or> (cmd = CHR ''C'' \<or> cmd = CHR ''c'') \<and> 6 \<le> length coords
     \<or> (cmd = CHR ''L'' \<or> cmd = CHR ''l'') \<and> 2 \<le> length coords)"

definition points_set :: "builder \<Rightarrow> bool" where
  \<comment> \<open>the segment under construction, if any, has its start and current point\<close>
  "points_set st =
     (case current_segment st of
        None \<Rightarrow> True
      | Some seg \<Rightarrow> start_point seg \<noteq> None \<and> current_point seg \<noteq> None)"

definition no_curves :: "builder \<Rightarrow> bool" where
  \<comment> \<open>nothing has been drawn: no segment is kept, and the segment under construction, if any,
      is empty and still at its start\<close>
  "no_curves st =
     (segments st = [] \<and>
      (case current_segment st of
         None \<Rightarrow> True
       | Some seg \<Rightarrow> cubic_segments seg = [] \<and> current_point seg = start_point seg))"

section \<open>Evaluation\<close>

text \<open>
  The square root is the only operation of the builder that does not compute; the comparison
  of the distance with the threshold is the comparison of the squares.
\<close>

lemma closing_dist_gt:
  "0.01 < closing_dist start endp \<longleftrightarrow>
     0.0001 < (fst start - fst endp)\<^sup>2 + (snd start - snd endp)\<^sup>2"
proof -
  have "(0.01 :: real) = sqrt 0.0001"
    by (rule sym, rule real_sqrt_unique) (simp_all add: power2_eq_square)
  then show ?thesis
    unfolding closing_dist_def by (simp only: real_sqrt_less_iff)
qed

lemma cmd_Z_code [code]:
  "cmd_Z st =
     (case current_segment st of
        None \<Rightarrow> st
      | Some seg \<Rightarrow>
          (case start_point seg of
             None \<Rightarrow> st
           | Some start \<Rightarrow>
               (case current_point seg of
                  None \<Rightarrow> st
                | Some endp \<Rightarrow>
                    let seg = (if 0.0001 < (fst start - fst endp)\<^sup>2 + (snd start - snd endp)\<^sup>2
                               then seg\<lparr>cubic_segments :=
                                          cubic_segments seg @ [line_cubic endp start]\<rparr>
                               else seg)
                    in st\<lparr>current_segment := Some (seg\<lparr>is_closed := True\<rparr>)\<rparr>)))"
  unfolding cmd_Z_def Let_def closing_dist_gt ..

section \<open>Ranges, indexing and the loops\<close>

declare py_range.simps [simp del]

lemma py_range_groups:
  "0 < n \<Longrightarrow>
   py_range (int (k * n)) (int len - (int n - 1)) (int n) = map (\<lambda>j. int (j * n)) [k..<len div n]"
proof (induction "len div n - k" arbitrary: k)
  case 0
  then have "len div n \<le> k" by simp
  then have "len div n < Suc k" by simp
  with \<open>0 < n\<close> have "len < Suc k * n" by (simp add: div_less_iff_less_mult)
  then have "len < k * n + n" by (simp add: add.commute)
  then have "\<not> int (k * n) < int len - (int n - 1)" by linarith
  with \<open>len div n \<le> k\<close> show ?case by (subst py_range.simps) simp
next
  case (Suc d)
  then have lt: "k < len div n" by simp
  then have "Suc k \<le> len div n" by simp
  with \<open>0 < n\<close> have "Suc k * n \<le> len" by (simp add: less_eq_div_iff_mult_less_eq)
  then have "k * n + n \<le> len" by (simp add: add.commute)
  with \<open>0 < n\<close> have c: "int (k * n) < int len - (int n - 1)" by linarith
  have d: "d = len div n - Suc k" using Suc.hyps(2) by simp
  have "py_range (int (Suc k * n)) (int len - (int n - 1)) (int n)
          = map (\<lambda>j. int (j * n)) [Suc k..<len div n]"
    using Suc.hyps(1) [OF d \<open>0 < n\<close>] .
  moreover have "int (k * n) + int n = int (Suc k * n)" by (simp add: add.commute)
  ultimately have "py_range (int (k * n) + int n) (int len - (int n - 1)) (int n)
          = map (\<lambda>j. int (j * n)) [Suc k..<len div n]" by (simp only:)
  with c \<open>0 < n\<close> lt show ?case
    by (subst py_range.simps) (simp add: upt_conv_Cons)
qed

lemma range_draw:
  "py_range 0 (int len - (2 - 1)) 2 = map (\<lambda>j. int (j * 2)) [0..<len div 2]"
  "py_range 0 (int len - (6 - 1)) 6 = map (\<lambda>j. int (j * 6)) [0..<len div 6]"
  using py_range_groups [of 2 0 len] py_range_groups [of 6 0 len] by simp_all

lemma range_M:
  "py_range 2 (int len - 1) 2 = map (\<lambda>j. int (j * 2)) [1..<len div 2]"
  using py_range_groups [of 2 1 len] by simp

lemma coord_at_Some:
  "0 \<le> i \<Longrightarrow> i < int (length coords) \<Longrightarrow> coord_at coords i = Some (coords ! nat i)"
  by (simp add: coord_at_def)

lemma coord_at_nat:
  "k < length coords \<Longrightarrow> coord_at coords (int k) = Some (coords ! k)"
  by (simp add: coord_at_def)

lemma for_each_append:
  "for_each body (xs @ ys) s =
     (case for_each body xs s of None \<Rightarrow> None | Some s' \<Rightarrow> for_each body ys s')"
  by (induction xs arbitrary: s) (simp_all split: option.splits)

lemma for_each_total:
  "(\<And>x s. x \<in> set xs \<Longrightarrow> \<exists>s'. body x s = Some s') \<Longrightarrow> \<exists>s'. for_each body xs s = Some s'"
proof (induction xs arbitrary: s)
  case Nil
  show ?case by simp
next
  case (Cons x xs)
  obtain s1 where s1: "body x s = Some s1" using Cons.prems [of x s] by auto
  have "\<exists>s'. for_each body xs s1 = Some s'"
    by (rule Cons.IH) (simp add: Cons.prems)
  with s1 show ?case by simp
qed

lemma coord_at_group:
  "j < length coords div n \<Longrightarrow> c < n \<Longrightarrow>
   coord_at coords (int (j * n) + int c) = Some (coords ! (j * n + c))"
proof -
  assume j: "j < length coords div n" and c: "c < n"
  then have "0 < n" by simp
  from j have "Suc j \<le> length coords div n" by simp
  with \<open>0 < n\<close> have "Suc j * n \<le> length coords" by (simp add: less_eq_div_iff_mult_less_eq)
  then have "j * n + n \<le> length coords" by (simp add: add.commute)
  with c have "j * n + c < length coords" by simp
  then have "coord_at coords (int (j * n + c)) = Some (coords ! (j * n + c))"
    by (rule coord_at_nat)
  then show ?thesis by simp
qed

lemmas coord_at_2 =
  coord_at_group [where n = 2 and c = 0, simplified]
  coord_at_group [where n = 2 and c = 1, simplified]

lemmas coord_at_6 =
  coord_at_group [where n = 6 and c = 0, simplified]
  coord_at_group [where n = 6 and c = 1, simplified]
  coord_at_group [where n = 6 and c = 2, simplified]
  coord_at_group [where n = 6 and c = 3, simplified]
  coord_at_group [where n = 6 and c = 4, simplified]
  coord_at_group [where n = 6 and c = 5, simplified]


lemma L_body_Some:
  "j < length coords div 2 \<Longrightarrow>
   L_body shift coords (int (j * 2)) (pos, seg) =
     Some ((coords ! (j * 2), coords ! (j * 2 + 1)),
           append_cubic
             (line_cubic (point_to_coord (fst pos) (snd pos) shift)
                         (point_to_coord (coords ! (j * 2)) (coords ! (j * 2 + 1)) shift))
             (point_to_coord (coords ! (j * 2)) (coords ! (j * 2 + 1)) shift) seg)"
  by (simp add: L_body_def coord_at_2 Let_def)

lemma M_body_eq: "M_body = L_body"
  by (intro ext) (simp add: M_body_def L_body_def)

lemma l_body_Some:
  "j < length coords div 2 \<Longrightarrow>
   l_body shift coords (int (j * 2)) (pos, seg) =
     Some ((fst pos + coords ! (j * 2), snd pos + coords ! (j * 2 + 1)),
           append_cubic
             (line_cubic (point_to_coord (fst pos) (snd pos) shift)
                (point_to_coord (fst pos + coords ! (j * 2)) (snd pos + coords ! (j * 2 + 1)) shift))
             (point_to_coord (fst pos + coords ! (j * 2)) (snd pos + coords ! (j * 2 + 1)) shift)
             seg)"
  by (simp add: l_body_def coord_at_2 Let_def)

lemma C_body_Some:
  "j < length coords div 6 \<Longrightarrow>
   C_body shift coords (int (j * 6)) (pos, seg) =
     Some ((coords ! (j * 6 + 4), coords ! (j * 6 + 5)),
           append_cubic
             (point_to_coord (fst pos) (snd pos) shift,
              point_to_coord (coords ! (j * 6)) (coords ! (j * 6 + 1)) shift,
              point_to_coord (coords ! (j * 6 + 2)) (coords ! (j * 6 + 3)) shift,
              point_to_coord (coords ! (j * 6 + 4)) (coords ! (j * 6 + 5)) shift)
             (point_to_coord (coords ! (j * 6 + 4)) (coords ! (j * 6 + 5)) shift) seg)"
  by (simp add: C_body_def coord_at_6 Let_def)

lemma c_body_Some:
  "j < length coords div 6 \<Longrightarrow>
   c_body shift coords (int (j * 6)) (pos, seg) =
     Some ((fst pos + coords ! (j * 6 + 4), snd pos + coords ! (j * 6 + 5)),
           append_cubic
             (point_to_coord (fst pos) (snd pos) shift,
              point_to_coord (fst pos + coords ! (j * 6)) (snd pos + coords ! (j * 6 + 1)) shift,
              point_to_coord (fst pos + coords ! (j * 6 + 2)) (snd pos + coords ! (j * 6 + 3)) shift,
              point_to_coord (fst pos + coords ! (j * 6 + 4)) (snd pos + coords ! (j * 6 + 5)) shift)
             (point_to_coord (fst pos + coords ! (j * 6 + 4)) (snd pos + coords ! (j * 6 + 5)) shift)
             seg)"
  by (simp add: c_body_def coord_at_6 Let_def)

lemma loop_appends:
  assumes body: "\<And>j pos seg. j < m \<Longrightarrow>
            \<exists>pos' c p3. body (int (j * n)) (pos, seg) = Some (pos', append_cubic c p3 seg)"
  shows "k \<le> m \<Longrightarrow>
         \<exists>pos' new cp.
           for_each body (map (\<lambda>j. int (j * n)) [k..<m]) (pos, seg) =
             Some (pos', seg\<lparr>cubic_segments := cubic_segments seg @ new, current_point := cp\<rparr>)
           \<and> length new = m - k
           \<and> (new = [] \<longrightarrow> cp = current_point seg \<and> pos' = pos)
           \<and> (new \<noteq> [] \<longrightarrow> cp \<noteq> None)"
proof (induction "m - k" arbitrary: k pos seg)
  case 0
  then have "k = m" by simp
  then have "for_each body (map (\<lambda>j. int (j * n)) [k..<m]) (pos, seg) =
      Some (pos, seg\<lparr>cubic_segments := cubic_segments seg @ [],
                       current_point := current_point seg\<rparr>)"
    by simp
  with \<open>k = m\<close> show ?case
    by (intro exI [of _ pos] exI [of _ "[]"] exI [of _ "current_point seg"]) simp
next
  case (Suc d)
  then have lt: "k < m" by simp
  obtain pos1 c p3 where b: "body (int (k * n)) (pos, seg) = Some (pos1, append_cubic c p3 seg)"
    using body [OF lt] by blast
  have d: "d = m - Suc k" using Suc.hyps(2) by simp
  from lt have le: "Suc k \<le> m" by simp
  obtain pos' new cp where
    r: "for_each body (map (\<lambda>j. int (j * n)) [Suc k..<m]) (pos1, append_cubic c p3 seg) =
          Some (pos', (append_cubic c p3 seg)
                  \<lparr>cubic_segments := cubic_segments (append_cubic c p3 seg) @ new,
                   current_point := cp\<rparr>)"
    and n: "length new = m - Suc k"
    and e: "new = [] \<longrightarrow> cp = current_point (append_cubic c p3 seg)"
    and ne: "new \<noteq> [] \<longrightarrow> cp \<noteq> None"
    using Suc.hyps(1) [OF d le, of pos1 "append_cubic c p3 seg"] by blast
  have s: "(append_cubic c p3 seg)
             \<lparr>cubic_segments := cubic_segments (append_cubic c p3 seg) @ new, current_point := cp\<rparr>
           = seg\<lparr>cubic_segments := cubic_segments seg @ (c # new), current_point := cp\<rparr>"
    by (simp add: append_cubic_def)
  have f: "for_each body (map (\<lambda>j. int (j * n)) [k..<m]) (pos, seg) =
          Some (pos', seg\<lparr>cubic_segments := cubic_segments seg @ (c # new), current_point := cp\<rparr>)"
    using lt b r s by (simp add: upt_conv_Cons)
  have "cp \<noteq> None" using e ne by (cases "new = []") (simp_all add: append_cubic_def)
  with f n lt show ?case
    by (intro exI [of _ pos'] exI [of _ "c # new"] exI [of _ cp]) simp
qed

lemma draw_result:
  assumes body: "\<And>j pos seg. j < length coords div n \<Longrightarrow>
            \<exists>pos' c p3. body shift coords (int (j * n)) (pos, seg)
                          = Some (pos', append_cubic c p3 seg)"
    and n: "0 < n"
  shows "\<exists>pos' new cp.
           draw body (int n) shift coords st =
             Some (st\<lparr>current_segment :=
                        Some ((ensure_segment shift st)
                                \<lparr>cubic_segments := cubic_segments (ensure_segment shift st) @ new,
                                 current_point := cp\<rparr>),
                      current_pos := pos'\<rparr>)
           \<and> length new = length coords div n
           \<and> (new = [] \<longrightarrow> cp = current_point (ensure_segment shift st) \<and> pos' = current_pos st)
           \<and> (new \<noteq> [] \<longrightarrow> cp \<noteq> None)"
proof -
  have r: "py_range 0 (int (length coords) - (int n - 1)) (int n)
             = map (\<lambda>j. int (j * n)) [0..<length coords div n]"
    using py_range_groups [OF n, of 0 "length coords"] by simp
  have "\<exists>pos' new cp.
      for_each (body shift coords) (map (\<lambda>j. int (j * n)) [0..<length coords div n])
        (current_pos st, ensure_segment shift st) =
       Some (pos', (ensure_segment shift st)
                     \<lparr>cubic_segments := cubic_segments (ensure_segment shift st) @ new,
                      current_point := cp\<rparr>)
      \<and> length new = length coords div n - 0
      \<and> (new = [] \<longrightarrow> cp = current_point (ensure_segment shift st) \<and> pos' = current_pos st)
      \<and> (new \<noteq> [] \<longrightarrow> cp \<noteq> None)"
  proof (rule loop_appends)
    show "\<exists>pos' c p3. body shift coords (int (j * n)) (pos, seg)
                          = Some (pos', append_cubic c p3 seg)"
      if "j < length coords div n" for j pos seg
      using that by (rule body)
    show "0 \<le> length coords div n" by simp
  qed
  then obtain pos' new cp where
    f: "for_each (body shift coords) (map (\<lambda>j. int (j * n)) [0..<length coords div n])
        (current_pos st, ensure_segment shift st) =
       Some (pos', (ensure_segment shift st)
                     \<lparr>cubic_segments := cubic_segments (ensure_segment shift st) @ new,
                      current_point := cp\<rparr>)"
    and l: "length new = length coords div n - 0"
    and e: "new = [] \<longrightarrow> cp = current_point (ensure_segment shift st) \<and> pos' = current_pos st"
    and ne: "new \<noteq> [] \<longrightarrow> cp \<noteq> None"
    by (elim exE conjE)
  have "draw body (int n) shift coords st =
             Some (st\<lparr>current_segment :=
                        Some ((ensure_segment shift st)
                                \<lparr>cubic_segments := cubic_segments (ensure_segment shift st) @ new,
                                 current_point := cp\<rparr>),
                      current_pos := pos'\<rparr>)"
    unfolding draw_def Let_def r f by simp
  with l e ne show ?thesis
    by (intro exI [of _ pos'] exI [of _ new] exI [of _ cp]) simp
qed

lemma draw_L: "\<exists>pos' new cp.
           draw L_body 2 shift coords st =
             Some (st\<lparr>current_segment :=
                        Some ((ensure_segment shift st)
                                \<lparr>cubic_segments := cubic_segments (ensure_segment shift st) @ new,
                                 current_point := cp\<rparr>),
                      current_pos := pos'\<rparr>)
           \<and> length new = length coords div 2
           \<and> (new = [] \<longrightarrow> cp = current_point (ensure_segment shift st) \<and> pos' = current_pos st)
           \<and> (new \<noteq> [] \<longrightarrow> cp \<noteq> None)"
proof -
  have "\<exists>pos' c p3. L_body shift coords (int (j * 2)) (pos, seg)
                          = Some (pos', append_cubic c p3 seg)"
    if "j < length coords div 2" for j pos seg
    unfolding L_body_Some [OF that] by (intro exI) (rule refl)
  from draw_result [of coords 2 L_body shift st, OF this] show ?thesis by simp
qed

lemma draw_l: "\<exists>pos' new cp.
           draw l_body 2 shift coords st =
             Some (st\<lparr>current_segment :=
                        Some ((ensure_segment shift st)
                                \<lparr>cubic_segments := cubic_segments (ensure_segment shift st) @ new,
                                 current_point := cp\<rparr>),
                      current_pos := pos'\<rparr>)
           \<and> length new = length coords div 2
           \<and> (new = [] \<longrightarrow> cp = current_point (ensure_segment shift st) \<and> pos' = current_pos st)
           \<and> (new \<noteq> [] \<longrightarrow> cp \<noteq> None)"
proof -
  have "\<exists>pos' c p3. l_body shift coords (int (j * 2)) (pos, seg)
                          = Some (pos', append_cubic c p3 seg)"
    if "j < length coords div 2" for j pos seg
    unfolding l_body_Some [OF that] by (intro exI) (rule refl)
  from draw_result [of coords 2 l_body shift st, OF this] show ?thesis by simp
qed

lemma draw_C: "\<exists>pos' new cp.
           draw C_body 6 shift coords st =
             Some (st\<lparr>current_segment :=
                        Some ((ensure_segment shift st)
                                \<lparr>cubic_segments := cubic_segments (ensure_segment shift st) @ new,
                                 current_point := cp\<rparr>),
                      current_pos := pos'\<rparr>)
           \<and> length new = length coords div 6
           \<and> (new = [] \<longrightarrow> cp = current_point (ensure_segment shift st) \<and> pos' = current_pos st)
           \<and> (new \<noteq> [] \<longrightarrow> cp \<noteq> None)"
proof -
  have "\<exists>pos' c p3. C_body shift coords (int (j * 6)) (pos, seg)
                          = Some (pos', append_cubic c p3 seg)"
    if "j < length coords div 6" for j pos seg
    unfolding C_body_Some [OF that] by (intro exI) (rule refl)
  from draw_result [of coords 6 C_body shift st, OF this] show ?thesis by simp
qed

lemma draw_c: "\<exists>pos' new cp.
           draw c_body 6 shift coords st =
             Some (st\<lparr>current_segment :=
                        Some ((ensure_segment shift st)
                                \<lparr>cubic_segments := cubic_segments (ensure_segment shift st) @ new,
                                 current_point := cp\<rparr>),
                      current_pos := pos'\<rparr>)
           \<and> length new = length coords div 6
           \<and> (new = [] \<longrightarrow> cp = current_point (ensure_segment shift st) \<and> pos' = current_pos st)
           \<and> (new \<noteq> [] \<longrightarrow> cp \<noteq> None)"
proof -
  have "\<exists>pos' c p3. c_body shift coords (int (j * 6)) (pos, seg)
                          = Some (pos', append_cubic c p3 seg)"
    if "j < length coords div 6" for j pos seg
    unfolding c_body_Some [OF that] by (intro exI) (rule refl)
  from draw_result [of coords 6 c_body shift st, OF this] show ?thesis by simp
qed

section \<open>The moveto commands and totality\<close>

lemma L_loop_exact:
  "k \<le> m \<Longrightarrow> m \<le> length coords div 2 \<Longrightarrow>
   for_each (L_body shift coords) (map (\<lambda>j. int (j * 2)) [k..<m]) (pos, seg) =
     Some (if k < m then pair_at coords (m - 1) else pos,
           seg\<lparr>cubic_segments := cubic_segments seg @
                   map (\<lambda>j. line_cubic
                               (output_point shift (if j = k then pos else pair_at coords (j - 1)))
                               (output_point shift (pair_at coords j))) [k..<m],
                current_point := (if k < m then Some (output_point shift (pair_at coords (m - 1)))
                                  else current_point seg)\<rparr>)"
proof (induction "m - k" arbitrary: k pos seg)
  case 0
  then have "k = m" by simp
  then show ?case by simp
next
  case (Suc d)
  then have lt: "k < m" by simp
  with Suc.prems have j: "k < length coords div 2" by simp
  have d: "d = m - Suc k" using Suc.hyps(2) by simp
  from lt have le: "Suc k \<le> m" by simp
  let ?seg1 = "append_cubic (line_cubic (output_point shift pos) (output_point shift (pair_at coords k)))
                 (output_point shift (pair_at coords k)) seg"
  have b: "L_body shift coords (int (k * 2)) (pos, seg) = Some (pair_at coords k, ?seg1)"
    using L_body_Some [OF j] by (simp add: pair_at_def output_point_def)
  have m: "map (\<lambda>j. line_cubic
                  (output_point shift (if j = Suc k then pair_at coords k else pair_at coords (j - 1)))
                  (output_point shift (pair_at coords j))) [Suc k..<m]
         = map (\<lambda>j. line_cubic
                  (output_point shift (if j = k then pos else pair_at coords (j - 1)))
                  (output_point shift (pair_at coords j))) [Suc k..<m]"
    by (rule map_cong) auto
  have ih: "for_each (L_body shift coords) (map (\<lambda>j. int (j * 2)) [Suc k..<m])
        (pair_at coords k, ?seg1) =
     Some (if Suc k < m then pair_at coords (m - 1) else pair_at coords k,
           ?seg1\<lparr>cubic_segments := cubic_segments ?seg1 @
                   map (\<lambda>j. line_cubic
                               (output_point shift (if j = k then pos else pair_at coords (j - 1)))
                               (output_point shift (pair_at coords j))) [Suc k..<m],
                current_point := (if Suc k < m then Some (output_point shift (pair_at coords (m - 1)))
                                  else current_point ?seg1)\<rparr>)"
    using Suc.hyps(1) [OF d le Suc.prems(2), of "pair_at coords k" ?seg1] unfolding m .
  have e: "Suc k < m \<or> Suc k = m" using le by auto
  have l: "[k..<m] = k # [Suc k..<m]" using lt by (rule upt_conv_Cons)
  show ?case
    unfolding l using lt b ih e
    by (auto simp add: append_cubic_def)
qed

lemma cmd_M_result:
  assumes len: "2 \<le> length coords"
  shows "cmd_M shift coords st =
     Some \<lparr>segments = finalize st,
           current_segment = Some
             \<lparr>cubic_segments =
                map (\<lambda>j. line_cubic (output_point shift (pair_at coords (j - 1)))
                                     (output_point shift (pair_at coords j)))
                    [1..<length coords div 2],
              is_closed = False,
              start_point = Some (output_point shift (pair_at coords 0)),
              current_point = Some (output_point shift (pair_at coords (length coords div 2 - 1)))\<rparr>,
           current_pos = pair_at coords (length coords div 2 - 1)\<rparr>"
proof -
  let ?m = "length coords div 2"
  let ?pos = "pair_at coords 0"
  let ?seg = "open_segment shift ?pos"
  from len have m: "1 \<le> ?m" by simp
  have c0: "coord_at coords 0 = Some (fst ?pos)" and c1: "coord_at coords 1 = Some (snd ?pos)"
    using len by (auto simp add: coord_at_def pair_at_def)
  have mp: "map (\<lambda>j. line_cubic
                  (output_point shift (if j = 1 then ?pos else pair_at coords (j - 1)))
                  (output_point shift (pair_at coords j))) [1..<?m]
         = map (\<lambda>j. line_cubic (output_point shift (pair_at coords (j - 1)))
                                (output_point shift (pair_at coords j))) [1..<?m]"
    by (rule map_cong) auto
  have loop: "for_each (M_body shift coords) (py_range 2 (int (length coords) - 1) 2) (?pos, ?seg) =
     Some (if 1 < ?m then pair_at coords (?m - 1) else ?pos,
           ?seg\<lparr>cubic_segments := cubic_segments ?seg @
                   map (\<lambda>j. line_cubic (output_point shift (pair_at coords (j - 1)))
                                (output_point shift (pair_at coords j))) [1..<?m],
                current_point := (if 1 < ?m then Some (output_point shift (pair_at coords (?m - 1)))
                                  else current_point ?seg)\<rparr>)"
    unfolding range_M M_body_eq
    using L_loop_exact [OF m order_refl, of shift ?pos ?seg] unfolding mp .
  have start: "cmd_M shift coords st =
      Option.bind (for_each (M_body shift coords) (py_range 2 (int (length coords) - 1) 2)
                     (?pos, ?seg))
        (\<lambda>(pos, seg). Some \<lparr>segments = finalize st, current_segment = Some seg,
                              current_pos = pos\<rparr>)"
    unfolding cmd_M_def Let_def using len by (simp add: c0 c1)
  have seg: "?seg = \<lparr>cubic_segments = [], is_closed = False,
                     start_point = Some (output_point shift ?pos),
                     current_point = Some (output_point shift ?pos)\<rparr>"
    by (simp add: open_segment_def new_PathSegment_def output_point_def Let_def)
  from m have "1 < ?m \<or> ?m = 1" by auto
  then show ?thesis
  proof
    assume "1 < ?m"
    then show ?thesis unfolding start loop by (simp add: seg)
  next
    assume e: "?m = 1"
    show ?thesis unfolding start loop using e by (simp add: seg)
  qed
qed

lemma cmd_m_result:
  assumes len: "2 \<le> length coords"
  shows "cmd_m shift coords st =
     Some \<lparr>segments = finalize st,
           current_segment = Some
             \<lparr>cubic_segments = [],
              is_closed = False,
              start_point = Some (output_point shift
                 (fst (current_pos st) + coords ! 0, snd (current_pos st) + coords ! 1)),
              current_point = Some (output_point shift
                 (fst (current_pos st) + coords ! 0, snd (current_pos st) + coords ! 1))\<rparr>,
           current_pos = (fst (current_pos st) + coords ! 0, snd (current_pos st) + coords ! 1)\<rparr>"
proof -
  have c0: "coord_at coords 0 = Some (coords ! 0)" and c1: "coord_at coords 1 = Some (coords ! 1)"
    using len by (auto simp add: coord_at_def)
  show ?thesis
    unfolding cmd_m_def Let_def using len
    by (simp add: c0 c1 open_segment_def new_PathSegment_def output_point_def Let_def)
qed

lemma step_total: "\<exists>st'. step shift c st = Some st'"
proof (cases c)
  case (Pair cmd coords)
  have M: "\<exists>st'. cmd_M shift coords st = Some st'"
    by (cases "2 \<le> length coords") (simp_all add: cmd_M_result, simp add: cmd_M_def)
  have m: "\<exists>st'. cmd_m shift coords st = Some st'"
    by (cases "2 \<le> length coords") (simp_all add: cmd_m_result, simp add: cmd_m_def)
  have L: "\<exists>st'. draw L_body 2 shift coords st = Some st'" using draw_L [of shift coords st] by blast
  have l: "\<exists>st'. draw l_body 2 shift coords st = Some st'" using draw_l [of shift coords st] by blast
  have C: "\<exists>st'. draw C_body 6 shift coords st = Some st'" using draw_C [of shift coords st] by blast
  have c: "\<exists>st'. draw c_body 6 shift coords st = Some st'" using draw_c [of shift coords st] by blast
  show ?thesis unfolding Pair step_def using M m L l C c by simp
qed

lemma build_total: "\<exists>st'. build shift cmds st = Some st'"
  unfolding build_def by (rule for_each_total) (rule step_total)

section \<open>Properties of the coordinate transform\<close>

lemma round_half_even_le: "v \<le> of_int n \<Longrightarrow> round_half_even v \<le> n"
proof -
  assume a: "v \<le> of_int n"
  then have f: "\<lfloor>v\<rfloor> \<le> n" by linarith
  show ?thesis
  proof (cases "v = of_int \<lfloor>v\<rfloor>")
    case True
    then have "v - of_int \<lfloor>v\<rfloor> < 1 / 2" by simp
    with f show ?thesis by (simp add: round_half_even_def Let_def)
  next
    case False
    then have "of_int \<lfloor>v\<rfloor> < v" using of_int_floor_le [of v] by linarith
    with a have "of_int \<lfloor>v\<rfloor> < (of_int n :: real)" by linarith
    then have "\<lfloor>v\<rfloor> < n" by simp
    then show ?thesis by (simp add: round_half_even_def Let_def)
  qed
qed

lemma round_half_even_ge: "of_int n \<le> v \<Longrightarrow> n \<le> round_half_even v"
proof -
  assume "of_int n \<le> v"
  then have "n \<le> \<lfloor>v\<rfloor>" by (simp add: le_floor_iff)
  then show ?thesis by (simp add: round_half_even_def Let_def)
qed

lemma round4_le: "v \<le> of_int n \<Longrightarrow> round4 v \<le> of_int n"
proof -
  assume "v \<le> of_int n"
  then have "v * 10000 \<le> of_int (n * 10000)" by simp
  then have "round_half_even (v * 10000) \<le> n * 10000" by (rule round_half_even_le)
  then have "(of_int (round_half_even (v * 10000)) :: real) \<le> of_int (n * 10000)"
    by (simp only: of_int_le_iff)
  then show ?thesis by (simp add: round4_def)
qed

lemma round4_ge: "of_int n \<le> v \<Longrightarrow> of_int n \<le> round4 v"
proof -
  assume "of_int n \<le> v"
  then have "of_int (n * 10000) \<le> v * 10000" by simp
  then have "n * 10000 \<le> round_half_even (v * 10000)" by (rule round_half_even_ge)
  then have "(of_int (n * 10000) :: real) \<le> of_int (round_half_even (v * 10000))"
    by (simp only: of_int_le_iff)
  then show ?thesis by (simp add: round4_def)
qed

lemma round4_of_int: "round4 (of_int n) = of_int n"
proof -
  have "of_int n * (10000::real) = of_int (n * 10000)" by simp
  then show ?thesis unfolding round4_def round_half_even_def Let_def
    by (simp only: floor_of_int) simp
qed

lemma round4_lower: "v - 1 / 10000 < round4 v"
proof -
  have "v * 10000 - 1 < of_int \<lfloor>v * 10000\<rfloor>" by linarith
  moreover have "\<lfloor>v * 10000\<rfloor> \<le> round_half_even (v * 10000)"
    by (simp add: round_half_even_def Let_def)
  ultimately have "v * 10000 - 1 < of_int (round_half_even (v * 10000))"
    by (smt (verit) of_int_le_iff)
  then show ?thesis by (simp add: round4_def field_simps)
qed

text \<open>
  Claim C4. For every raw point the output latitude lies in \<open>[-72, 72]\<close>; a raw latitude at
  or beyond a boundary gives exactly that boundary, \<open>72\<close> or \<open>-72\<close>. The output longitude is
  the rounded value of the affine formula, with no clamp: it exceeds and falls below every
  bound.
\<close>

theorem latitude_clamped:
  "- 72 \<le> fst (svg_to_geographic x y) \<and> fst (svg_to_geographic x y) \<le> 72
   \<and> (72 \<le> - (y - SVG_HEIGHT / 2) * (LAT_RANGE / (SVG_HEIGHT / 2))
        \<longrightarrow> fst (svg_to_geographic x y) = 72)
   \<and> (- (y - SVG_HEIGHT / 2) * (LAT_RANGE / (SVG_HEIGHT / 2)) \<le> - 72
        \<longrightarrow> fst (svg_to_geographic x y) = - 72)
   \<and> snd (svg_to_geographic x y) = round4 ((x - SVG_WIDTH / 2) * (LON_RANGE / (SVG_WIDTH / 2)))
   \<and> (\<forall>b. \<exists>x'. b < snd (svg_to_geographic x' y))
   \<and> (\<forall>b. \<exists>x'. snd (svg_to_geographic x' y) < b)"
proof -
  define raw where "raw = - (y - SVG_HEIGHT / 2) * (LAT_RANGE / (SVG_HEIGHT / 2))"
  define lat where "lat = max (- 72) (min 72 raw)"
  have fst_eq: "fst (svg_to_geographic x y) = round4 lat"
    by (simp add: svg_to_geographic_def lat_def raw_def Let_def LAT_RANGE_def)
  have "lat \<le> of_int 72" by (simp add: lat_def)
  then have b1: "round4 lat \<le> of_int 72" by (rule round4_le)
  have "of_int (- 72) \<le> lat" by (simp add: lat_def)
  then have "of_int (- 72) \<le> round4 lat" by (rule round4_ge)
  with b1 have bounds: "- 72 \<le> round4 lat \<and> round4 lat \<le> 72" by simp
  have hi: "round4 lat = 72" if "72 \<le> raw"
  proof -
    from that have "lat = of_int 72" by (simp add: lat_def)
    then show ?thesis using round4_of_int [of 72] by simp
  qed
  have lo: "round4 lat = - 72" if "raw \<le> - 72"
  proof -
    from that have "lat = of_int (- 72)" by (simp add: lat_def)
    then show ?thesis using round4_of_int [of "- 72"] by simp
  qed
  have snd_eq: "snd (svg_to_geographic x' y) =
      round4 ((x' - SVG_WIDTH / 2) * (LON_RANGE / (SVG_WIDTH / 2)))" for x'
    by (simp add: svg_to_geographic_def Let_def)
  have pre: "((v * (2085 / 180) + 2085) - SVG_WIDTH / 2) * (LON_RANGE / (SVG_WIDTH / 2)) = v"
    for v :: real
    by (simp add: SVG_WIDTH_def LON_RANGE_def)
  have up: "\<exists>x'. b < snd (svg_to_geographic x' y)" for b
  proof
    have "snd (svg_to_geographic ((b + 1) * (2085 / 180) + 2085) y) = round4 (b + 1)"
      by (simp only: snd_eq pre)
    moreover have "b + 1 - 1 / 10000 < round4 (b + 1)" by (rule round4_lower)
    ultimately show "b < snd (svg_to_geographic ((b + 1) * (2085 / 180) + 2085) y)"
      by linarith
  qed
  have down: "\<exists>x'. snd (svg_to_geographic x' y) < b" for b
  proof
    have "snd (svg_to_geographic (of_int (\<lfloor>b\<rfloor> - 1) * (2085 / 180) + 2085) y)
            = of_int (\<lfloor>b\<rfloor> - 1)"
      by (simp only: snd_eq pre round4_of_int)
    moreover have "(of_int (\<lfloor>b\<rfloor> - 1) :: real) < b" by linarith
    ultimately show "snd (svg_to_geographic (of_int (\<lfloor>b\<rfloor> - 1) * (2085 / 180) + 2085) y) < b"
      by linarith
  qed
  show ?thesis
    unfolding fst_eq raw_def [symmetric]
    using bounds hi lo up down snd_eq by blast
qed

theorem latitude_clamped_witness:
  "72 \<le> - (- 1668 - SVG_HEIGHT / 2) * (LAT_RANGE / (SVG_HEIGHT / 2))
   \<and> fst (svg_to_geographic 0 (- 1668)) = 72
   \<and> - (3000 - SVG_HEIGHT / 2) * (LAT_RANGE / (SVG_HEIGHT / 2)) \<le> - 72
   \<and> fst (svg_to_geographic 0 3000) = - 72"
  using latitude_clamped [of 0 "- 1668"] latitude_clamped [of 0 3000]
  by (simp add: SVG_HEIGHT_def LAT_RANGE_def)


section \<open>Argument lists of any length\<close>














text \<open>
  Claim C8. A command whose letter is one of \<open>S s Q q T t A a H h V v\<close> is recognised by the
  tokenizer and leaves the whole state of the builder (cursor, segment under construction,
  emitted segments) as it is; dropping the command from a command list does not change the
  result.
\<close>

theorem unhandled_opcode_noop:
  "cmd \<in> set ''SsQqTtAaHhVv'' \<Longrightarrow>
   is_cmd cmd
   \<and> step shift (cmd, coords) st = Some st
   \<and> build shift (pre @ (cmd, coords) # post) st0 = build shift (pre @ post) st0"
proof -
  assume c: "cmd \<in> set ''SsQqTtAaHhVv''"
  then have a: "is_cmd cmd" by (auto simp add: is_cmd_def)
  from c have s: "step shift (cmd, coords) st = Some st" for st
    by (auto simp add: step_def)
  have "build shift (pre @ (cmd, coords) # post) st0 = build shift (pre @ post) st0"
    unfolding build_def for_each_append by (simp add: s split: option.splits)
  with a s show ?thesis by simp
qed

theorem unhandled_opcode_noop_witness:
  "CHR ''S'' \<in> set ''SsQqTtAaHhVv''
   \<and> step 0 (CHR ''S'', [1, 2, 3, 4]) initial = Some initial
   \<and> build 0 [(CHR ''M'', [0, 0]), (CHR ''S'', [1, 2, 3, 4]), (CHR ''L'', [100, 0])] initial
       = build 0 [(CHR ''M'', [0, 0]), (CHR ''L'', [100, 0])] initial"
  using unhandled_opcode_noop [of "CHR ''S''" 0 "[1, 2, 3, 4]" initial "[(CHR ''M'', [0, 0])]"
          "[(CHR ''L'', [100, 0])]" initial]
  by simp

text \<open>
  Claim C6. An \<open>M\<close> with at least one coordinate pair closes the segment under construction
  (kept if it has a curve) and starts a new one at the first pair; every further complete
  pair adds one straight cubic from the previous pair to it, and the cursor ends on the last
  complete pair. An \<open>m\<close> starts the new segment at the cursor moved by the first pair and
  stops there: further pairs add no curve and do not move the cursor.
\<close>

theorem moveto_asymmetry:
  "2 \<le> length coords \<Longrightarrow>
   step shift (CHR ''M'', coords) st =
     Some \<lparr>segments = finalize st,
           current_segment = Some
             \<lparr>cubic_segments =
                map (\<lambda>j. line_cubic (output_point shift (pair_at coords (j - 1)))
                                     (output_point shift (pair_at coords j)))
                    [1..<length coords div 2],
              is_closed = False,
              start_point = Some (output_point shift (pair_at coords 0)),
              current_point = Some (output_point shift (pair_at coords (length coords div 2 - 1)))\<rparr>,
           current_pos = pair_at coords (length coords div 2 - 1)\<rparr>
   \<and> step shift (CHR ''m'', coords) st =
     Some \<lparr>segments = finalize st,
           current_segment = Some
             \<lparr>cubic_segments = [],
              is_closed = False,
              start_point = Some (output_point shift
                 (fst (current_pos st) + coords ! 0, snd (current_pos st) + coords ! 1)),
              current_point = Some (output_point shift
                 (fst (current_pos st) + coords ! 0, snd (current_pos st) + coords ! 1))\<rparr>,
           current_pos = (fst (current_pos st) + coords ! 0, snd (current_pos st) + coords ! 1)\<rparr>"
  by (simp add: step_def cmd_M_result cmd_m_result)

theorem moveto_asymmetry_witness:
  "2 \<le> length [0, 0, 100, 0, 100, 50 :: real]
   \<and> (\<exists>seg. step 0 (CHR ''M'', [0, 0, 100, 0, 100, 50]) initial =
               Some \<lparr>segments = [], current_segment = Some seg, current_pos = (100, 50)\<rparr>
            \<and> length (cubic_segments seg) = 2)
   \<and> (\<exists>seg. step 0 (CHR ''m'', [0, 0, 100, 0, 100, 50]) initial =
               Some \<lparr>segments = [], current_segment = Some seg, current_pos = (0, 0)\<rparr>
            \<and> cubic_segments seg = [])"
  using moveto_asymmetry [of "[0, 0, 100, 0, 100, 50]" 0 initial]
  by (simp add: pair_at_def finalize_def initial_def)

section \<open>Closepath\<close>

lemma for_each_invariant:
  "(\<And>x s s'. I s \<Longrightarrow> body x s = Some s' \<Longrightarrow> I s') \<Longrightarrow>
   I s \<Longrightarrow> for_each body xs s = Some s' \<Longrightarrow> I s'"
proof (induction xs arbitrary: s)
  case Nil
  then show ?case by simp
next
  case (Cons x xs)
  from Cons.prems(3) obtain s1 where b: "body x s = Some s1" and r: "for_each body xs s1 = Some s'"
    by (auto split: option.splits)
  have i1: "I s1" using Cons.prems(2) b by (rule Cons.prems(1))
  show ?case
  proof (rule Cons.IH)
    show "I t'" if "I t" "body y t = Some t'" for y t t'
      using that by (rule Cons.prems(1))
    show "I s1" by (rule i1)
    show "for_each body xs s1 = Some s'" by (rule r)
  qed
qed

lemma ensure_segment_points:
  "points_set st \<Longrightarrow>
   start_point (ensure_segment shift st) \<noteq> None \<and> current_point (ensure_segment shift st) \<noteq> None"
  by (cases "current_segment st")
     (simp_all add: points_set_def ensure_segment_def open_segment_def new_PathSegment_def Let_def)

lemma draw_points_set:
  assumes d: "\<exists>pos' new cp.
           draw body n shift coords st =
             Some (st\<lparr>current_segment :=
                        Some ((ensure_segment shift st)
                                \<lparr>cubic_segments := cubic_segments (ensure_segment shift st) @ new,
                                 current_point := cp\<rparr>),
                      current_pos := pos'\<rparr>)
           \<and> length new = m
           \<and> (new = [] \<longrightarrow> cp = current_point (ensure_segment shift st) \<and> pos' = current_pos st)
           \<and> (new \<noteq> [] \<longrightarrow> cp \<noteq> None)"
    and p: "points_set st" and r: "draw body n shift coords st = Some st'"
  shows "points_set st'"
proof -
  from d obtain pos' new cp where
    eq: "draw body n shift coords st =
             Some (st\<lparr>current_segment :=
                        Some ((ensure_segment shift st)
                                \<lparr>cubic_segments := cubic_segments (ensure_segment shift st) @ new,
                                 current_point := cp\<rparr>),
                      current_pos := pos'\<rparr>)"
    and e: "new = [] \<longrightarrow> cp = current_point (ensure_segment shift st) \<and> pos' = current_pos st"
    and ne: "new \<noteq> [] \<longrightarrow> cp \<noteq> None"
    by (elim exE conjE)
  from eq r have
    s: "st' = st\<lparr>current_segment :=
                        Some ((ensure_segment shift st)
                                \<lparr>cubic_segments := cubic_segments (ensure_segment shift st) @ new,
                                 current_point := cp\<rparr>),
                      current_pos := pos'\<rparr>"
    by simp
  have "cp \<noteq> None" using e ne ensure_segment_points [OF p, of shift] by (cases "new = []") simp_all
  with ensure_segment_points [OF p, of shift] show ?thesis
    unfolding s by (simp add: points_set_def)
qed

lemma cmd_Z_points_set: "points_set st \<Longrightarrow> points_set (cmd_Z st)"
  by (auto simp add: points_set_def cmd_Z_def Let_def split: option.splits)

lemma step_points_set:
  assumes p: "points_set st" and s: "step shift c st = Some st'"
  shows "points_set st'"
proof (cases c)
  case (Pair cmd coords)
  have M: "points_set st'" if "cmd_M shift coords st = Some st'"
  proof (cases "2 \<le> length coords")
    case True
    from that show ?thesis unfolding cmd_M_result [OF True] by (auto simp add: points_set_def)
  next
    case False
    with that p show ?thesis by (simp add: cmd_M_def)
  qed
  have m: "points_set st'" if "cmd_m shift coords st = Some st'"
  proof (cases "2 \<le> length coords")
    case True
    from that show ?thesis unfolding cmd_m_result [OF True] by (auto simp add: points_set_def)
  next
    case False
    with that p show ?thesis by (simp add: cmd_m_def)
  qed
  note d = draw_points_set [OF draw_L p] draw_points_set [OF draw_l p]
    draw_points_set [OF draw_C p] draw_points_set [OF draw_c p]
  from s show ?thesis
    unfolding Pair step_def using M m d p cmd_Z_points_set [OF p]
    by (auto split: if_splits)
qed

lemma build_points_set:
  "points_set st \<Longrightarrow> build shift cmds st = Some st' \<Longrightarrow> points_set st'"
  unfolding build_def
  by (rule for_each_invariant [where I = points_set and body = "step shift"])
     (rule step_points_set)

lemma initial_points_set: "points_set initial"
  by (simp add: points_set_def initial_def)

lemma reachable_points:
  assumes "build shift cmds initial = Some st" and "current_segment st = Some seg"
  shows "\<exists>start endp. start_point seg = Some start \<and> current_point seg = Some endp"
  using build_points_set [OF initial_points_set assms(1)] assms(2)
  by (auto simp add: points_set_def)



section \<open>Line-to against curve-to, and the example path\<close>

lemma range_single: "py_range 0 1 2 = [0]" "py_range 0 1 6 = [0]"
  using py_range_groups [of 2 0 2] py_range_groups [of 6 0 6] by simp_all

lemma L_single:
  "draw L_body 2 shift [x, y] st =
     Some (st\<lparr>current_segment :=
                Some (append_cubic
                        (line_cubic (output_point shift (current_pos st)) (output_point shift (x, y)))
                        (output_point shift (x, y)) (ensure_segment shift st)),
              current_pos := (x, y)\<rparr>)"
  using L_body_Some [of 0 "[x, y]" shift "current_pos st" "ensure_segment shift st"]
  by (simp add: draw_def range_single output_point_def)

lemma C_single:
  "draw C_body 6 shift [x1, y1, x2, y2, x3, y3] st =
     Some (st\<lparr>current_segment :=
                Some (append_cubic
                        (output_point shift (current_pos st), point_to_coord x1 y1 shift,
                         point_to_coord x2 y2 shift, point_to_coord x3 y3 shift)
                        (point_to_coord x3 y3 shift) (ensure_segment shift st)),
              current_pos := (x3, y3)\<rparr>)"
  using C_body_Some [of 0 "[x1, y1, x2, y2, x3, y3]" shift "current_pos st" "ensure_segment shift st"]
  by (simp add: draw_def range_single output_point_def)

text \<open>
  Claim C1, as amended. From any state, a line-to \<open>L x y\<close> and a cubic \<open>C\<close> whose control
  points are the raw interpolants at 1/3 and 2/3 between the cursor and \<open>(x, y)\<close> append
  cubics with the same first and last point, and leave the same cursor, start point, current
  point and closed flag. The control points of the \<open>L\<close> cubic are the interpolants at 1/3 and
  2/3 between the two transformed end points; those of the \<open>C\<close> cubic are the transforms of
  the raw interpolants.
\<close>

theorem lineto_curveto_endpoints:
  "(let cx = fst (current_pos st); cy = snd (current_pos st);
        p0 = point_to_coord cx cy shift; p3 = point_to_coord x y shift
    in step shift (CHR ''L'', [x, y]) st =
         Some (st\<lparr>current_segment := Some (append_cubic
                       (p0,
                        (fst p0 + (fst p3 - fst p0) / 3, snd p0 + (snd p3 - snd p0) / 3),
                        (fst p0 + (fst p3 - fst p0) * 2 / 3, snd p0 + (snd p3 - snd p0) * 2 / 3),
                        p3)
                       p3 (ensure_segment shift st)),
                  current_pos := (x, y)\<rparr>)
       \<and> step shift (CHR ''C'', [cx + (x - cx) / 3, cy + (y - cy) / 3,
                                  cx + (x - cx) * 2 / 3, cy + (y - cy) * 2 / 3, x, y]) st =
         Some (st\<lparr>current_segment := Some (append_cubic
                       (p0,
                        point_to_coord (cx + (x - cx) / 3) (cy + (y - cy) / 3) shift,
                        point_to_coord (cx + (x - cx) * 2 / 3) (cy + (y - cy) * 2 / 3) shift,
                        p3)
                       p3 (ensure_segment shift st)),
                  current_pos := (x, y)\<rparr>))"
  by (simp add: step_def L_single C_single output_point_def line_cubic_def Let_def)

lemmas parse_defs = parse_path_commands_def is_cmd_def strip_def is_space_def match_unsigned_def
  is_digit_def to_float_def unsigned_float_def digits_val_def digit_val_def

text \<open>
  Claim C1 as stated fails. With the cursor at raw \<open>(0, 834)\<close>, the line to \<open>(3, 834)\<close> has the
  control longitudes \<open>-539741/3000\<close> and \<open>-269741/1500\<close>, which are not multiples of
  \<open>1/10000\<close>, while the cubic through the raw interpolants \<open>(1, 834)\<close> and \<open>(2, 834)\<close> has the
  rounded \<open>-179.9137\<close> and \<open>-179.8273\<close>. With the cursor at raw \<open>(2085, -1668)\<close>, above the
  clamped band, the line to \<open>(2085, 834)\<close> has the control latitudes \<open>48\<close> and \<open>24\<close>, the
  cubic through the raw interpolants \<open>(2085, -834)\<close> and \<open>(2085, 0)\<close> has \<open>72\<close> and \<open>72\<close>.
\<close>

theorem lineto_curveto_tie_counterexample:
  "extract_path_segments ''M0,834L3,834'' 0 =
     Some [\<lparr>pathType = ''cubic'',
            cubicSegments = [((0, - 180), (0, - (539741 / 3000)), (0, - (269741 / 1500)),
                              (0, - (179741 / 1000)))],
            isClosed = False, strokeWidth = 3 / 2\<rparr>]
   \<and> extract_path_segments ''M0,834C1,834,2,834,3,834'' 0 =
     Some [\<lparr>pathType = ''cubic'',
            cubicSegments = [((0, - 180), (0, - (1799137 / 10000)), (0, - (1798273 / 10000)),
                              (0, - (179741 / 1000)))],
            isClosed = False, strokeWidth = 3 / 2\<rparr>]
   \<and> extract_path_segments ''M0,834L3,834'' 0 \<noteq> extract_path_segments ''M0,834C1,834,2,834,3,834'' 0
   \<and> extract_path_segments ''M2085,-1668L2085,834'' 0 =
     Some [\<lparr>pathType = ''cubic'',
            cubicSegments = [((72, 0), (48, 0), (24, 0), (0, 0))],
            isClosed = False, strokeWidth = 3 / 2\<rparr>]
   \<and> extract_path_segments ''M2085,-1668C2085,-834,2085,0,2085,834'' 0 =
     Some [\<lparr>pathType = ''cubic'',
            cubicSegments = [((72, 0), (72, 0), (72, 0), (0, 0))],
            isClosed = False, strokeWidth = 3 / 2\<rparr>]
   \<and> extract_path_segments ''M2085,-1668L2085,834'' 0
       \<noteq> extract_path_segments ''M2085,-1668C2085,-834,2085,0,2085,834'' 0"
proof -
  have p1: "parse_path_commands ''M0,834L3,834'' = [(CHR ''M'', [0, 834]), (CHR ''L'', [3, 834])]"
    by (simp add: parse_defs)
  have p2: "parse_path_commands ''M0,834C1,834,2,834,3,834'' =
              [(CHR ''M'', [0, 834]), (CHR ''C'', [1, 834, 2, 834, 3, 834])]"
    by (simp add: parse_defs)
  have p3: "parse_path_commands ''M2085,-1668L2085,834'' =
              [(CHR ''M'', [2085, - 1668]), (CHR ''L'', [2085, 834])]"
    by (simp add: parse_defs)
  have p4: "parse_path_commands ''M2085,-1668C2085,-834,2085,0,2085,834'' =
              [(CHR ''M'', [2085, - 1668]), (CHR ''C'', [2085, - 834, 2085, 0, 2085, 834])]"
    by (simp add: parse_defs)
  have b1: "map_option emit (build 0 [(CHR ''M'', [0, 834]), (CHR ''L'', [3, 834])] initial) =
     Some [\<lparr>pathType = ''cubic'',
            cubicSegments = [((0, - 180), (0, - (539741 / 3000)), (0, - (269741 / 1500)),
                              (0, - (179741 / 1000)))],
            isClosed = False, strokeWidth = 3 / 2\<rparr>]"
    by code_simp
  have b2: "map_option emit
              (build 0 [(CHR ''M'', [0, 834]), (CHR ''C'', [1, 834, 2, 834, 3, 834])] initial) =
     Some [\<lparr>pathType = ''cubic'',
            cubicSegments = [((0, - 180), (0, - (1799137 / 10000)), (0, - (1798273 / 10000)),
                              (0, - (179741 / 1000)))],
            isClosed = False, strokeWidth = 3 / 2\<rparr>]"
    by code_simp
  have b3: "map_option emit
              (build 0 [(CHR ''M'', [2085, - 1668]), (CHR ''L'', [2085, 834])] initial) =
     Some [\<lparr>pathType = ''cubic'',
            cubicSegments = [((72, 0), (48, 0), (24, 0), (0, 0))],
            isClosed = False, strokeWidth = 3 / 2\<rparr>]"
    by code_simp
  have b4: "map_option emit
              (build 0 [(CHR ''M'', [2085, - 1668]),
                        (CHR ''C'', [2085, - 834, 2085, 0, 2085, 834])] initial) =
     Some [\<lparr>pathType = ''cubic'',
            cubicSegments = [((72, 0), (72, 0), (72, 0), (0, 0))],
            isClosed = False, strokeWidth = 3 / 2\<rparr>]"
    by code_simp
  show ?thesis
    unfolding extract_path_segments_def p1 p2 p3 p4 b1 b2 b3 b4 by simp
qed

text \<open>
  Claim C7. The path string \<open>M0,0L100,0Z\<close> with shift 0 gives exactly one path, closed, with
  two cubics: the line from raw \<open>(0, 0)\<close> to \<open>(100, 0)\<close> and the closing line back.
\<close>

theorem example_closed_line:
  "extract_path_segments ''M0,0L100,0Z'' 0 =
     Some [\<lparr>pathType = ''cubic'',
            cubicSegments =
              [((72, - 180), (72, - 177.1223), (72, - 174.2446), (72, - 171.3669)),
               ((72, - 171.3669), (72, - 174.2446), (72, - 177.1223), (72, - 180))],
            isClosed = True, strokeWidth = 1.5\<rparr>]"
proof -
  have p: "parse_path_commands ''M0,0L100,0Z'' =
             [(CHR ''M'', [0, 0]), (CHR ''L'', [100, 0]), (CHR ''Z'', [])]"
    by (simp add: parse_defs)
  have b: "map_option emit
             (build 0 [(CHR ''M'', [0, 0]), (CHR ''L'', [100, 0]), (CHR ''Z'', [])] initial) =
     Some [\<lparr>pathType = ''cubic'',
            cubicSegments =
              [((72, - 180), (72, - 177.1223), (72, - 174.2446), (72, - 171.3669)),
               ((72, - 171.3669), (72, - 174.2446), (72, - 177.1223), (72, - 180))],
            isClosed = True, strokeWidth = 1.5\<rparr>]"
    by code_simp
  show ?thesis unfolding extract_path_segments_def p by (rule b)
qed

section \<open>Drawing after a closepath\<close>

lemma l_single:
  "draw l_body 2 shift [x, y] st =
     Some (st\<lparr>current_segment :=
                Some (append_cubic
                        (line_cubic (output_point shift (current_pos st))
                           (output_point shift (fst (current_pos st) + x, snd (current_pos st) + y)))
                        (output_point shift (fst (current_pos st) + x, snd (current_pos st) + y))
                        (ensure_segment shift st)),
              current_pos := (fst (current_pos st) + x, snd (current_pos st) + y)\<rparr>)"
  using l_body_Some [of 0 "[x, y]" shift "current_pos st" "ensure_segment shift st"]
  by (simp add: draw_def range_single output_point_def)

lemma cmd_Z_result:
  "current_segment st = Some seg \<Longrightarrow> start_point seg = Some start \<Longrightarrow>
   current_point seg = Some endp \<Longrightarrow>
   cmd_Z st = st\<lparr>current_segment := Some (seg
                  \<lparr>cubic_segments := cubic_segments seg @
                      (if 0.01 < closing_dist start endp then [line_cubic endp start] else []),
                   is_closed := True\<rparr>)\<rparr>"
  by (simp add: cmd_Z_def Let_def)

text \<open>
  Claim C10. Let the builder have processed any command list and have a segment under
  construction. A \<open>Z\<close> or \<open>z\<close> leaves the raw cursor where it was and keeps the segment, now
  closed, under construction. A line-to or curve-to that follows adds its cubic to this same
  closed segment, and the cubic starts at the transform of the cursor as it was before the
  close, not at the segment's start.
\<close>

theorem closepath_keeps_cursor:
  assumes "build shift cmds initial = Some st"
    and "current_segment st = Some seg"
    and "cmd = CHR ''Z'' \<or> cmd = CHR ''z''"
  shows "\<exists>st' seg'.
           step shift (cmd, coords) st = Some st'
           \<and> current_pos st' = current_pos st
           \<and> segments st' = segments st
           \<and> current_segment st' = Some seg'
           \<and> is_closed seg'
           \<and> step shift (CHR ''L'', [x, y]) st' =
               Some (st'\<lparr>current_segment := Some (seg'
                      \<lparr>cubic_segments := cubic_segments seg' @
                          [line_cubic (output_point shift (current_pos st))
                                      (output_point shift (x, y))],
                       current_point := Some (output_point shift (x, y))\<rparr>),
                    current_pos := (x, y)\<rparr>)
           \<and> step shift (CHR ''l'', [x, y]) st' =
               Some (st'\<lparr>current_segment := Some (seg'
                      \<lparr>cubic_segments := cubic_segments seg' @
                          [line_cubic (output_point shift (current_pos st))
                             (output_point shift
                                (fst (current_pos st) + x, snd (current_pos st) + y))],
                       current_point := Some (output_point shift
                                (fst (current_pos st) + x, snd (current_pos st) + y))\<rparr>),
                    current_pos := (fst (current_pos st) + x, snd (current_pos st) + y)\<rparr>)
           \<and> step shift (CHR ''C'', [x1, y1, x2, y2, x3, y3]) st' =
               Some (st'\<lparr>current_segment := Some (seg'
                      \<lparr>cubic_segments := cubic_segments seg' @
                          [(output_point shift (current_pos st), point_to_coord x1 y1 shift,
                            point_to_coord x2 y2 shift, point_to_coord x3 y3 shift)],
                       current_point := Some (point_to_coord x3 y3 shift)\<rparr>),
                    current_pos := (x3, y3)\<rparr>)"
proof -
  obtain start endp where p: "start_point seg = Some start" "current_point seg = Some endp"
    using reachable_points [OF assms(1, 2)] by blast
  define seg' where "seg' = seg\<lparr>cubic_segments := cubic_segments seg @
                      (if 0.01 < closing_dist start endp then [line_cubic endp start] else []),
                   is_closed := True\<rparr>"
  define st' where "st' = st\<lparr>current_segment := Some seg'\<rparr>"
  have z: "step shift (cmd, coords) st = Some st'"
    unfolding st'_def seg'_def
    using assms(3) cmd_Z_result [OF assms(2) p] by (auto simp add: step_def)
  have e: "ensure_segment shift st' = seg'" by (simp add: ensure_segment_def st'_def)
  have c: "current_pos st' = current_pos st" by (simp add: st'_def)
  have s: "segments st' = segments st" by (simp add: st'_def)
  have k: "current_segment st' = Some seg'" by (simp add: st'_def)
  have i: "is_closed seg'" by (simp add: seg'_def)
  have L: "step shift (CHR ''L'', [x, y]) st' =
               Some (st'\<lparr>current_segment := Some (seg'
                      \<lparr>cubic_segments := cubic_segments seg' @
                          [line_cubic (output_point shift (current_pos st))
                                      (output_point shift (x, y))],
                       current_point := Some (output_point shift (x, y))\<rparr>),
                    current_pos := (x, y)\<rparr>)"
    by (simp add: step_def L_single e c append_cubic_def)
  have l: "step shift (CHR ''l'', [x, y]) st' =
               Some (st'\<lparr>current_segment := Some (seg'
                      \<lparr>cubic_segments := cubic_segments seg' @
                          [line_cubic (output_point shift (current_pos st))
                             (output_point shift
                                (fst (current_pos st) + x, snd (current_pos st) + y))],
                       current_point := Some (output_point shift
                                (fst (current_pos st) + x, snd (current_pos st) + y))\<rparr>),
                    current_pos := (fst (current_pos st) + x, snd (current_pos st) + y)\<rparr>)"
    by (simp add: step_def l_single e c append_cubic_def)
  have C: "step shift (CHR ''C'', [x1, y1, x2, y2, x3, y3]) st' =
               Some (st'\<lparr>current_segment := Some (seg'
                      \<lparr>cubic_segments := cubic_segments seg' @
                          [(output_point shift (current_pos st), point_to_coord x1 y1 shift,
                            point_to_coord x2 y2 shift, point_to_coord x3 y3 shift)],
                       current_point := Some (point_to_coord x3 y3 shift)\<rparr>),
                    current_pos := (x3, y3)\<rparr>)"
    by (simp add: step_def C_single e c append_cubic_def)
  from z c s k i L l C show ?thesis by blast
qed

theorem closepath_keeps_cursor_witness:
  "build 0 [(CHR ''M'', [0, 0]), (CHR ''L'', [100, 0])] initial =
     Some \<lparr>segments = [],
           current_segment = Some
             \<lparr>cubic_segments = [((72, - 180), (72, - 177.1223), (72, - 174.2446), (72, - 171.3669))],
              is_closed = False, start_point = Some (72, - 180),
              current_point = Some (72, - 171.3669)\<rparr>,
           current_pos = (100, 0)\<rparr>
   \<and> (\<exists>st' seg'.
         step 0 (CHR ''Z'', [])
           \<lparr>segments = [],
            current_segment = Some
              \<lparr>cubic_segments = [((72, - 180), (72, - 177.1223), (72, - 174.2446), (72, - 171.3669))],
               is_closed = False, start_point = Some (72, - 180),
               current_point = Some (72, - 171.3669)\<rparr>,
            current_pos = (100, 0)\<rparr> = Some st'
         \<and> current_pos st' = (100, 0)
         \<and> current_segment st' = Some seg'
         \<and> is_closed seg'
         \<and> step 0 (CHR ''L'', [50, 50]) st' =
               Some (st'\<lparr>current_segment := Some (seg'
                      \<lparr>cubic_segments := cubic_segments seg' @
                          [line_cubic (output_point 0 (100, 0)) (output_point 0 (50, 50))],
                       current_point := Some (output_point 0 (50, 50))\<rparr>),
                    current_pos := (50, 50)\<rparr>))"
proof -
  let ?seg = "\<lparr>cubic_segments = [((72, - 180), (72, - 177.1223), (72, - 174.2446), (72, - 171.3669))],
              is_closed = False, start_point = Some (72 :: real, - 180 :: real),
              current_point = Some (72 :: real, - 171.3669 :: real)\<rparr>"
  let ?st = "\<lparr>segments = [], current_segment = Some ?seg, current_pos = (100, 0)\<rparr>"
  have b: "build 0 [(CHR ''M'', [0, 0]), (CHR ''L'', [100, 0])] initial = Some ?st"
    by code_simp
  have c: "current_segment ?st = Some ?seg" by simp
  have p: "current_pos ?st = (100, 0)" by simp
  from closepath_keeps_cursor [OF b c, of "CHR ''Z''" "[]" 50 50 0 0 0 0 0 0]
  obtain st' seg' where
    "step 0 (CHR ''Z'', []) ?st = Some st'"
    "current_pos st' = current_pos ?st"
    "current_segment st' = Some seg'"
    "is_closed seg'"
    "step 0 (CHR ''L'', [50, 50]) st' =
               Some (st'\<lparr>current_segment := Some (seg'
                      \<lparr>cubic_segments := cubic_segments seg' @
                          [line_cubic (output_point 0 (current_pos ?st)) (output_point 0 (50, 50))],
                       current_point := Some (output_point 0 (50, 50))\<rparr>),
                    current_pos := (50, 50)\<rparr>)"
    by blast
  then have "\<exists>st' seg'.
         step 0 (CHR ''Z'', []) ?st = Some st'
         \<and> current_pos st' = (100, 0)
         \<and> current_segment st' = Some seg'
         \<and> is_closed seg'
         \<and> step 0 (CHR ''L'', [50, 50]) st' =
               Some (st'\<lparr>current_segment := Some (seg'
                      \<lparr>cubic_segments := cubic_segments seg' @
                          [line_cubic (output_point 0 (100, 0)) (output_point 0 (50, 50))],
                       current_point := Some (output_point 0 (50, 50))\<rparr>),
                    current_pos := (50, 50)\<rparr>)"
    unfolding p by blast
  with b show ?thesis by (rule conjI)
qed

section \<open>Segments without a curve are not emitted\<close>

lemma finalize_no_curves: "no_curves st \<Longrightarrow> finalize st = []"
  by (cases "current_segment st") (simp_all add: no_curves_def finalize_def)

lemma emit_no_curves: "no_curves st \<Longrightarrow> emit st = []"
  by (simp add: emit_def finalize_no_curves)

lemma ensure_segment_no_curves:
  "no_curves st \<Longrightarrow>
   cubic_segments (ensure_segment shift st) = []
   \<and> current_point (ensure_segment shift st) = start_point (ensure_segment shift st)"
  by (cases "current_segment st")
     (simp_all add: no_curves_def ensure_segment_def open_segment_def new_PathSegment_def Let_def)

lemma draw_no_curves:
  assumes d: "\<exists>pos' new cp.
           draw body n shift coords st =
             Some (st\<lparr>current_segment :=
                        Some ((ensure_segment shift st)
                                \<lparr>cubic_segments := cubic_segments (ensure_segment shift st) @ new,
                                 current_point := cp\<rparr>),
                      current_pos := pos'\<rparr>)
           \<and> length new = m
           \<and> (new = [] \<longrightarrow> cp = current_point (ensure_segment shift st) \<and> pos' = current_pos st)
           \<and> (new \<noteq> [] \<longrightarrow> cp \<noteq> None)"
    and p: "no_curves st" and m: "m = 0" and r: "draw body n shift coords st = Some st'"
  shows "no_curves st'"
proof -
  from d obtain pos' new cp where
    eq: "draw body n shift coords st =
             Some (st\<lparr>current_segment :=
                        Some ((ensure_segment shift st)
                                \<lparr>cubic_segments := cubic_segments (ensure_segment shift st) @ new,
                                 current_point := cp\<rparr>),
                      current_pos := pos'\<rparr>)"
    and l: "length new = m"
    and e: "new = [] \<longrightarrow> cp = current_point (ensure_segment shift st) \<and> pos' = current_pos st"
    by (elim exE conjE)
  from l m have n: "new = []" by simp
  with e have cp: "cp = current_point (ensure_segment shift st)" by simp
  from eq r have
    s: "st' = st\<lparr>current_segment :=
                        Some ((ensure_segment shift st)
                                \<lparr>cubic_segments := cubic_segments (ensure_segment shift st) @ new,
                                 current_point := cp\<rparr>),
                      current_pos := pos'\<rparr>"
    by simp
  from p have "segments st = []" by (simp add: no_curves_def)
  with ensure_segment_no_curves [OF p, of shift] show ?thesis
    unfolding s n cp by (simp add: no_curves_def)
qed

lemma cmd_Z_no_curves: "no_curves st \<Longrightarrow> no_curves (cmd_Z st)"
proof (cases "current_segment st")
  case None
  assume "no_curves st"
  with None show ?thesis by (simp add: cmd_Z_def)
next
  case (Some seg)
  assume n: "no_curves st"
  with Some have c: "cubic_segments seg = []" "current_point seg = start_point seg"
    and s: "segments st = []"
    by (simp_all add: no_curves_def)
  show ?thesis
  proof (cases "start_point seg")
    case None
    with Some n show ?thesis by (simp add: cmd_Z_def)
  next
    case (Some start)
    have "\<not> 0.01 < closing_dist start start" unfolding closing_dist_gt by simp
    with \<open>current_segment st = Some seg\<close> Some c s show ?thesis
      by (simp add: cmd_Z_def Let_def no_curves_def)
  qed
qed

lemma step_no_curves:
  assumes p: "no_curves st" and nd: "\<not> draws c" and s: "step shift c st = Some st'"
  shows "no_curves st'"
proof (cases c)
  case (Pair cmd coords)
  have f: "finalize st = []" using p by (rule finalize_no_curves)
  have M: "no_curves st'" if "cmd_M shift coords st = Some st'" "length coords < 4"
  proof (cases "2 \<le> length coords")
    case True
    with that(2) have "length coords div 2 = 1" by simp
    with that(1) show ?thesis
      unfolding cmd_M_result [OF True] by (auto simp add: no_curves_def f)
  next
    case False
    with that p show ?thesis by (simp add: cmd_M_def)
  qed
  have m: "no_curves st'" if "cmd_m shift coords st = Some st'"
  proof (cases "2 \<le> length coords")
    case True
    from that show ?thesis unfolding cmd_m_result [OF True] by (auto simp add: no_curves_def f)
  next
    case False
    with that p show ?thesis by (simp add: cmd_m_def)
  qed
  have L: "no_curves st'" if "draw L_body 2 shift coords st = Some st'" "length coords < 2"
    using draw_L p _ that(1) by (rule draw_no_curves) (use that(2) in simp)
  have l: "no_curves st'" if "draw l_body 2 shift coords st = Some st'" "length coords < 2"
    using draw_l p _ that(1) by (rule draw_no_curves) (use that(2) in simp)
  have C: "no_curves st'" if "draw C_body 6 shift coords st = Some st'" "length coords < 6"
    using draw_C p _ that(1) by (rule draw_no_curves) (use that(2) in simp)
  have c: "no_curves st'" if "draw c_body 6 shift coords st = Some st'" "length coords < 6"
    using draw_c p _ that(1) by (rule draw_no_curves) (use that(2) in simp)
  from s nd show ?thesis
    unfolding Pair step_def draws_def using M m L l C c p cmd_Z_no_curves [OF p]
    by (auto split: if_splits)
qed

lemma build_no_curves:
  "no_curves st \<Longrightarrow> \<forall>c \<in> set cmds. \<not> draws c \<Longrightarrow> build shift cmds st = Some st' \<Longrightarrow>
   no_curves st'"
proof (induction cmds arbitrary: st)
  case Nil
  then show ?case by (simp add: build_def)
next
  case (Cons c cmds)
  from Cons.prems(3) obtain s1 where b: "step shift c st = Some s1"
    and r: "build shift cmds s1 = Some st'"
    by (auto simp add: build_def split: option.splits)
  from Cons.prems(2) have "\<not> draws c" by simp
  with Cons.prems(1) have "no_curves s1" using b by (rule step_no_curves)
  moreover from Cons.prems(2) have "\<forall>c \<in> set cmds. \<not> draws c" by simp
  ultimately show ?case using r by (rule Cons.IH)
qed

lemma initial_no_curves: "no_curves initial"
  by (simp add: no_curves_def initial_def)

text \<open>
  Claim C2. For every path string and shift the builder returns a list of paths, and every
  path in it has at least one cubic. When no command of the string carries a complete group
  of drawing coordinates (for example a lone moveto, also when a closepath follows it), the
  list is empty.
\<close>

theorem emitted_segments_have_curves:
  "(\<exists>out. extract_path_segments d shift = Some out
          \<and> (\<forall>p \<in> set out. 1 \<le> length (cubicSegments p)))
   \<and> ((\<forall>c \<in> set (parse_path_commands d). \<not> draws c) \<longrightarrow>
        extract_path_segments d shift = Some [])"
proof -
  obtain st where b: "build shift (parse_path_commands d) initial = Some st"
    using build_total by blast
  then have e: "extract_path_segments d shift = Some (emit st)"
    by (simp add: extract_path_segments_def)
  have "\<forall>p \<in> set (emit st). 1 \<le> length (cubicSegments p)"
    by (auto simp add: emit_def to_dict_def Suc_le_eq)
  moreover have "emit st = []" if "\<forall>c \<in> set (parse_path_commands d). \<not> draws c"
    using initial_no_curves that b by (rule build_no_curves [THEN emit_no_curves])
  ultimately show ?thesis using e by simp
qed

theorem emitted_segments_have_curves_witness:
  "parse_path_commands ''M10,10Z'' = [(CHR ''M'', [10, 10]), (CHR ''Z'', [])]
   \<and> \<not> draws (CHR ''M'', [10, 10]) \<and> \<not> draws (CHR ''Z'', [])
   \<and> extract_path_segments ''M10,10Z'' 0 = Some []
   \<and> extract_path_segments ''M0,0L100,0'' 0 =
       Some [\<lparr>pathType = ''cubic'',
              cubicSegments =
                [((72, - 180), (72, - 177.1223), (72, - 174.2446), (72, - 171.3669))],
              isClosed = False, strokeWidth = 1.5\<rparr>]
   \<and> 1 \<le> length (cubicSegments
        \<lparr>pathType = ''cubic'',
         cubicSegments =
           [((72 :: real, - 180 :: real), (72 :: real, - 177.1223 :: real),
             (72 :: real, - 174.2446 :: real), (72 :: real, - 171.3669 :: real))],
         isClosed = False, strokeWidth = 1.5\<rparr>)"
proof -
  have p1: "parse_path_commands ''M10,10Z'' = [(CHR ''M'', [10, 10]), (CHR ''Z'', [])]"
    by (simp add: parse_defs)
  have n: "\<forall>c \<in> set (parse_path_commands ''M10,10Z''). \<not> draws c"
    unfolding p1 by (simp add: draws_def)
  have p2: "parse_path_commands ''M0,0L100,0'' = [(CHR ''M'', [0, 0]), (CHR ''L'', [100, 0])]"
    by (simp add: parse_defs)
  have b: "map_option emit (build 0 [(CHR ''M'', [0, 0]), (CHR ''L'', [100, 0])] initial) =
     Some [\<lparr>pathType = ''cubic'',
            cubicSegments =
              [((72, - 180), (72, - 177.1223), (72, - 174.2446), (72, - 171.3669))],
            isClosed = False, strokeWidth = 1.5\<rparr>]"
    by code_simp
  have e: "extract_path_segments ''M0,0L100,0'' 0 =
     Some [\<lparr>pathType = ''cubic'',
            cubicSegments =
              [((72, - 180), (72, - 177.1223), (72, - 174.2446), (72, - 171.3669))],
            isClosed = False, strokeWidth = 1.5\<rparr>]"
    unfolding extract_path_segments_def p2 by (rule b)
  from emitted_segments_have_curves [of "''M10,10Z''" 0]
    emitted_segments_have_curves [of "''M0,0L100,0''" 0] n e p1
  show ?thesis by (auto simp add: draws_def)
qed

end
